theory Spec2Isabelle
  imports Complex_Main
begin

section \<open>The expectation engine of \<open>backends/circuitbycirq.py\<close>\<close>

text \<open>
  The class \<open>CircuitByCirq\<close> computes the expectation value of a weighted-graph cost
  Hamiltonian as a sum of per-element terms, each evaluated on a small subgraph circuit.
  The embedding follows the source line by line:
  \<^item> Python floats are modelled as \<open>real\<close>, Python ints as \<open>int\<close>, indices into Python
    lists as \<open>nat\<close> (every index the source computes comes from \<open>range(len(...))\<close> or
    from the default \<open>0\<close> of a \<open>defaultdict(int)\<close>);
  \<^item> \<open>self._pargs\<close> is a one-dimensional numpy array, so \<open>2 * gamma_list * w\<close> multiplies
    every entry of the array;
  \<^item> dictionaries are maps, \<open>element_to_graph.items()\<close> is the list of its items in
    insertion order;
  \<^item> every exception of the source is a value \<open>Inl e\<close> of \<open>error + 'a\<close>;
  \<^item> the object's attributes are a record that is passed in and returned;
  \<^item> what the two strategies do to the process that runs them (the thread-count
    environment variables they set, the worker pool the parallel one creates) is a
    second record, passed in and returned with the object;
  \<^item> the two calls into the cirq library that simulate a circuit and evaluate an
    observable are parameters of the model, since their code is not part of this
    repository. They may fail, so they return \<open>error + _\<close>.
  Printing the total is not modelled. Neither are \<open>get_operator\<close>, which no other
  method calls, and \<open>visualization\<close>, which plots the history and changes nothing.
\<close>

subsection \<open>Data\<close>

datatype error = KeyError | IndexError | TypeError | AttributeError | ValueError

text \<open>
  A graph element is a node identifier (\<open>isinstance(original_e, int)\<close>) or a pair of node
  identifiers.
\<close>

datatype element = Node int | Edge int int

text \<open>
  What the source reads of a networkx graph: \<open>graph.nodes\<close> and \<open>graph.edges\<close>, each in
  iteration order.
\<close>

record graph =
  nodes :: "int list"
  edges :: "(int \<times> int) list"

text \<open>
  Gates on line qubits. \<open>LineQubit.range(n)[u]\<close> is the line qubit \<open>u\<close>, so a qubit is its
  index. The angle of a rotation is the numpy array the source passes to \<open>cirq.rz\<close> and
  \<open>cirq.rx\<close>.
\<close>

datatype gate =
    H_on nat
  | rz_on "real list" nat
  | CX_on nat nat
  | rx_on "real list" nat

text \<open>
  What \<open>circ.append\<close> receives: an operation, or an operation wrapped in a
  \<open>cirq.Moment\<close>. A circuit is the list of the entries appended so far.
\<close>

datatype entry = Op gate | Moment gate

text \<open>The observable: \<open>cirq.Z(q)\<close>, or a product built with \<open>*\<close>.\<close>

datatype pauli = Z_on nat | Mul pauli pauli

text \<open>The attributes of a \<open>CircuitByCirq\<close> object; \<open>None\<close> is Python's \<open>None\<close>.\<close>

record engine =
  self_p :: "int option"
  self_nodes_weight :: "(int \<rightharpoonup> real) option"
  self_edges_weight :: "(int \<times> int \<rightharpoonup> real) option"
  self_is_parallel :: bool
  self_element_to_graph :: "(element \<times> graph) list option"
  self_pargs :: "real list option"
  self_expectation_path :: "real list"

subsection \<open>Construction\<close>

text \<open>
  \<open>__init__(nodes_weight=None, edges_weight=None, is_parallel=None)\<close>: an argument that
  is not supplied is \<open>None\<close>.
\<close>

definition init ::
  "(int \<rightharpoonup> real) option \<Rightarrow> (int \<times> int \<rightharpoonup> real) option \<Rightarrow> bool option \<Rightarrow> engine" where
  "init nodes_weight edges_weight is_parallel =
     \<lparr> self_p = None,
       self_nodes_weight = nodes_weight,
       self_edges_weight = edges_weight,
       self_is_parallel = (case is_parallel of None \<Rightarrow> False | Some b \<Rightarrow> b),
       self_element_to_graph = None,
       self_pargs = None,
       self_expectation_path = [] \<rparr>"

subsection \<open>Python primitives used by the source\<close>

text \<open>\<open>xs[:k]\<close> and \<open>xs[k:]\<close>; a negative \<open>k\<close> counts from the end, \<open>None\<close> is no bound.\<close>

fun slice_to :: "int option \<Rightarrow> 'a list \<Rightarrow> 'a list" where
  "slice_to None xs = xs"
| "slice_to (Some k) xs =
     (if 0 \<le> k then take (nat k) xs else take (length xs - nat (- k)) xs)"

fun slice_from :: "int option \<Rightarrow> 'a list \<Rightarrow> 'a list" where
  "slice_from None xs = xs"
| "slice_from (Some k) xs =
     (if 0 \<le> k then drop (nat k) xs else drop (length xs - nat (- k)) xs)"

text \<open>\<open>range(k)\<close>: empty for \<open>k \<le> 0\<close>, a \<open>TypeError\<close> for \<open>None\<close>.\<close>

fun range_of :: "int option \<Rightarrow> error + nat list" where
  "range_of None = Inl TypeError"
| "range_of (Some k) = Inr [0..<nat k]"

text \<open>\<open>d[k]\<close> on an attribute that holds a dictionary or \<open>None\<close>.\<close>

fun getitem :: "('k \<rightharpoonup> 'v) option \<Rightarrow> 'k \<Rightarrow> error + 'v" where
  "getitem None k = Inl TypeError"
| "getitem (Some d) k = (case d k of None \<Rightarrow> Inl KeyError | Some v \<Rightarrow> Inr v)"

text \<open>\<open>ql[u]\<close> on \<open>LineQubit.range(n)\<close>.\<close>

definition qubit_at :: "nat \<Rightarrow> nat \<Rightarrow> error + nat" where
  "qubit_at n u = (if u < n then Inr u else Inl IndexError)"

text \<open>
  A \<open>for\<close> loop whose body appends entries to the circuit: the entries of every
  iteration in order, or the first exception raised.
\<close>

fun for_append :: "('a \<Rightarrow> error + 'b list) \<Rightarrow> 'a list \<Rightarrow> error + 'b list" where
  "for_append body [] = Inr []"
| "for_append body (x # xs) =
     (case body x of
        Inl e \<Rightarrow> Inl e
      | Inr ys \<Rightarrow> (case for_append body xs of Inl e \<Rightarrow> Inl e | Inr zs \<Rightarrow> Inr (ys @ zs)))"

subsection \<open>The local qubit index (lines 58 to 61)\<close>

text \<open>
  \<open>node_to_qubit = defaultdict(int)\<close>, filled by the loop over \<open>range(len(node_list))\<close>
  whose body is \<open>node_to_qubit[node_list[i]] = i\<close>.
  Reading a missing key of a \<open>defaultdict(int)\<close> gives \<open>0\<close> (and stores it, which no
  later read can tell apart from the default).
\<close>

definition store_index :: "int list \<Rightarrow> nat \<Rightarrow> (int \<rightharpoonup> nat) \<Rightarrow> (int \<rightharpoonup> nat)" where
  "store_index node_list i d = d(node_list ! i \<mapsto> i)"

definition node_to_qubit_of :: "int list \<Rightarrow> (int \<rightharpoonup> nat)" where
  "node_to_qubit_of node_list =
     fold (store_index node_list) [0..<length node_list] Map.empty"

definition node_to_qubit :: "int list \<Rightarrow> int \<Rightarrow> nat" where
  "node_to_qubit node_list x =
     (case node_to_qubit_of node_list x of None \<Rightarrow> 0 | Some i \<Rightarrow> i)"

subsection \<open>The circuit (lines 63 to 84)\<close>

definition hadamards :: "nat \<Rightarrow> entry list" where
  "hadamards n = map (\<lambda>i. Op (H_on i)) [0..<n]"

text \<open>Line 71: the Z-rotation of one node.\<close>

definition node_phase ::
  "engine \<Rightarrow> int list \<Rightarrow> real list \<Rightarrow> int \<Rightarrow> error + entry list" where
  "node_phase self node_list gamma_list i =
     (let u = node_to_qubit node_list i in
      case getitem (self_nodes_weight self) i of
        Inl e \<Rightarrow> Inl e
      | Inr w \<Rightarrow>
         (case qubit_at (length node_list) u of
            Inl e \<Rightarrow> Inl e
          | Inr q \<Rightarrow> Inr [Op (rz_on (map (\<lambda>g. 2 * g * w) gamma_list) q)]))"

text \<open>Lines 74 to 80: the coupling of one edge.\<close>

definition edge_coupling ::
  "engine \<Rightarrow> int list \<Rightarrow> real list \<Rightarrow> int \<times> int \<Rightarrow> error + entry list" where
  "edge_coupling self node_list gamma_list edge =
     (let u = node_to_qubit node_list (fst edge);
          v = node_to_qubit node_list (snd edge) in
      if u = v then Inr []
      else
        case qubit_at (length node_list) u of
          Inl e \<Rightarrow> Inl e
        | Inr qu \<Rightarrow>
           (case qubit_at (length node_list) v of
              Inl e \<Rightarrow> Inl e
            | Inr qv \<Rightarrow>
               (case getitem (self_edges_weight self) (fst edge, snd edge) of
                  Inl e \<Rightarrow> Inl e
                | Inr w \<Rightarrow>
                   Inr [Op (CX_on qu qv),
                        Op (rz_on (map (\<lambda>g. 2 * g * w) gamma_list) qv),
                        Op (CX_on qu qv)])))"

text \<open>Lines 83 and 84: the X-rotation of one node, in a moment of its own.\<close>

definition node_mixer :: "int list \<Rightarrow> real list \<Rightarrow> int \<Rightarrow> error + entry list" where
  "node_mixer node_list beta_list nd =
     (let u = node_to_qubit node_list nd in
      case qubit_at (length node_list) u of
        Inl e \<Rightarrow> Inl e
      | Inr q \<Rightarrow> Inr [Moment (rx_on (map (\<lambda>b. 2 * b) beta_list) q)])"

text \<open>
  Lines 69 to 84: the body of the loop \<open>for k in range(self._p)\<close>. The source does not
  use \<open>k\<close> in the body.
\<close>

definition layer ::
  "engine \<Rightarrow> graph \<Rightarrow> real list \<Rightarrow> real list \<Rightarrow> nat \<Rightarrow> error + entry list" where
  "layer self g gamma_list beta_list k =
     (case for_append (node_phase self (nodes g) gamma_list) (nodes g) of
        Inl e \<Rightarrow> Inl e
      | Inr a \<Rightarrow>
         (case for_append (edge_coupling self (nodes g) gamma_list) (edges g) of
            Inl e \<Rightarrow> Inl e
          | Inr b \<Rightarrow>
             (case for_append (node_mixer (nodes g) beta_list) (nodes g) of
                Inl e \<Rightarrow> Inl e
              | Inr c \<Rightarrow> Inr (a @ b @ c))))"

text \<open>Lines 63 to 84: the circuit of one subgraph.\<close>

definition build_circuit :: "engine \<Rightarrow> graph \<Rightarrow> error + entry list" where
  "build_circuit self g =
     (case self_pargs self of
        None \<Rightarrow> Inl TypeError
      | Some pargs \<Rightarrow>
         (let gamma_list = slice_to (self_p self) pargs;
              beta_list = slice_from (self_p self) pargs in
          case range_of (self_p self) of
            Inl e \<Rightarrow> Inl e
          | Inr ks \<Rightarrow>
             (case for_append (layer self g gamma_list beta_list) ks of
                Inl e \<Rightarrow> Inl e
              | Inr ls \<Rightarrow> Inr (hadamards (length (nodes g)) @ ls))))"

subsection \<open>Weight and observable (lines 86 to 94)\<close>

definition qubit_map :: "nat \<Rightarrow> (nat \<times> nat) list" where
  "qubit_map n = zip [0..<n] [0..<n]"

fun weight_and_op :: "engine \<Rightarrow> int list \<Rightarrow> element \<Rightarrow> error + (real \<times> pauli)" where
  "weight_and_op self node_list (Node a) =
     (case getitem (self_nodes_weight self) a of
        Inl e \<Rightarrow> Inl e
      | Inr weight \<Rightarrow>
         (case qubit_at (length node_list) (node_to_qubit node_list a) of
            Inl e \<Rightarrow> Inl e
          | Inr q \<Rightarrow> Inr (weight, Z_on q)))"
| "weight_and_op self node_list (Edge a b) =
     (case getitem (self_edges_weight self) (a, b) of
        Inl e \<Rightarrow> Inl e
      | Inr weight \<Rightarrow>
         (case qubit_at (length node_list) (node_to_qubit node_list a) of
            Inl e \<Rightarrow> Inl e
          | Inr qa \<Rightarrow>
             (case qubit_at (length node_list) (node_to_qubit node_list b) of
                Inl e \<Rightarrow> Inl e
              | Inr qb \<Rightarrow> Inr (weight, Mul (Z_on qa) (Z_on qb)))))"

subsection \<open>The per-term evaluator \<open>get_expectation\<close> (lines 39 to 99)\<close>

text \<open>
  \<open>final_state_vector\<close> stands for \<open>cirq.final_state_vector\<close> and
  \<open>expectation_from_state_vector\<close> for the method of that name of the observable.
\<close>

definition get_expectation ::
  "(entry list \<Rightarrow> error + 'st) \<Rightarrow> (pauli \<Rightarrow> 'st \<Rightarrow> (nat \<times> nat) list \<Rightarrow> error + complex) \<Rightarrow>
   engine \<Rightarrow> element \<times> graph \<Rightarrow> error + real" where
  "get_expectation final_state_vector expectation_from_state_vector self element_graph =
     (let original_e = fst element_graph; g = snd element_graph in
      case build_circuit self g of
        Inl e \<Rightarrow> Inl e
      | Inr circ \<Rightarrow>
         (case weight_and_op self (nodes g) original_e of
            Inl e \<Rightarrow> Inl e
          | Inr (weight, op) \<Rightarrow>
             (case final_state_vector circ of
                Inl e \<Rightarrow> Inl e
              | Inr state \<Rightarrow>
                 (case expectation_from_state_vector op state (qubit_map (length (nodes g))) of
                    Inl e \<Rightarrow> Inl e
                  | Inr exp_res \<Rightarrow> Inr (weight * Re exp_res)))))"

subsection \<open>The process around the object\<close>

text \<open>
  A strategy returns a total and changes the object; it also acts on the process that
  runs it. It sets five thread-count variables in \<open>os.environ\<close>, and the parallel one
  creates a worker pool, maps the items over it, terminates and joins it.
  \<open>cpu_count\<close> is what \<open>multiprocessing.cpu_count()\<close> and \<open>os.cpu_count()\<close> return on the
  host.
\<close>

datatype pool_event =
    Pool_created nat
  | Pool_map nat nat
  | Pool_terminated
  | Pool_joined

record process =
  cpu_count :: nat
  os_environ :: "string \<rightharpoonup> string"
  pool_events :: "pool_event list"

text \<open>\<open>str(n)\<close> for a number that is not negative.\<close>

definition digit_char :: "nat \<Rightarrow> char" where
  "digit_char d = ''0123456789'' ! d"

fun py_str :: "nat \<Rightarrow> string" where
  "py_str n = (if n < 10 then [digit_char n] else py_str (n div 10) @ [digit_char (n mod 10)])"

declare py_str.simps [simp del]

text \<open>Lines 112 to 116 and 128 to 132: the five assignments to \<open>os.environ\<close>.\<close>

definition set_num_threads :: "string \<Rightarrow> process \<Rightarrow> process" where
  "set_num_threads v proc =
     proc\<lparr>os_environ := (os_environ proc)
       (''OMP_NUM_THREADS'' \<mapsto> v,
        ''OPENBLAS_NUM_THREADS'' \<mapsto> v,
        ''MKL_NUM_THREADS'' \<mapsto> v,
        ''VECLIB_MAXIMUM_THREADS'' \<mapsto> v,
        ''NUMEXPR_NUM_THREADS'' \<mapsto> v)\<rparr>"

definition pool_does :: "pool_event list \<Rightarrow> process \<Rightarrow> process" where
  "pool_does evs proc = proc\<lparr>pool_events := pool_events proc @ evs\<rparr>"

subsection \<open>The two strategies and their selector (lines 101 to 144)\<close>

text \<open>
  A call returns the total or the exception, the object and the process. An exception
  leaves the environment variables set, and in the parallel strategy the pool created
  but neither terminated nor joined.
\<close>

text \<open>Lines 118 to 120: \<open>res = 0\<close>, then \<open>res += ...\<close> for every item.\<close>

fun serial_loop :: "('a \<Rightarrow> error + real) \<Rightarrow> real \<Rightarrow> 'a list \<Rightarrow> error + real" where
  "serial_loop term res [] = Inr res"
| "serial_loop term res (item # items) =
     (case term item of Inl e \<Rightarrow> Inl e | Inr x \<Rightarrow> serial_loop term (res + x) items)"

definition expectation_calculation_serial ::
  "(entry list \<Rightarrow> error + 'st) \<Rightarrow> (pauli \<Rightarrow> 'st \<Rightarrow> (nat \<times> nat) list \<Rightarrow> error + complex) \<Rightarrow>
   engine \<Rightarrow> process \<Rightarrow> (error + real) \<times> engine \<times> process" where
  "expectation_calculation_serial final_state_vector expectation_from_state_vector self proc =
     (let cpu_num = cpu_count proc;
          proc = set_num_threads (py_str cpu_num) proc in
      case self_element_to_graph self of
        None \<Rightarrow> (Inl AttributeError, self, proc)
      | Some items \<Rightarrow>
         (case serial_loop
                 (get_expectation final_state_vector expectation_from_state_vector self) 0 items of
            Inl e \<Rightarrow> (Inl e, self, proc)
          | Inr res \<Rightarrow>
             (Inr res,
              self\<lparr>self_expectation_path := self_expectation_path self @ [res]\<rparr>,
              proc)))"

text \<open>
  \<open>pool.map(f, items, chunksize=1)\<close>: the results in the order of the items, or an
  exception when a task raised. When several tasks raise, the pool reports the one that
  finished first; the model reports the first in the order of the items.
\<close>

fun pool_map :: "('a \<Rightarrow> error + 'b) \<Rightarrow> 'a list \<Rightarrow> error + 'b list" where
  "pool_map f [] = Inr []"
| "pool_map f (x # xs) =
     (case f x of
        Inl e \<Rightarrow> Inl e
      | Inr y \<Rightarrow> (case pool_map f xs of Inl e \<Rightarrow> Inl e | Inr ys \<Rightarrow> Inr (y # ys)))"

text \<open>Python's \<open>sum\<close>: starts at \<open>0\<close> and adds from the left.\<close>

definition py_sum :: "real list \<Rightarrow> real" where
  "py_sum xs = foldl (+) 0 xs"

text \<open>
  Line 136 evaluates \<open>list(self._element_to_graph.items())\<close> after the pool is created
  and before \<open>pool.map\<close> is called.
\<close>

definition expectation_calculation_parallel ::
  "(entry list \<Rightarrow> error + 'st) \<Rightarrow> (pauli \<Rightarrow> 'st \<Rightarrow> (nat \<times> nat) list \<Rightarrow> error + complex) \<Rightarrow>
   engine \<Rightarrow> process \<Rightarrow> (error + real) \<times> engine \<times> process" where
  "expectation_calculation_parallel final_state_vector expectation_from_state_vector self proc =
     (let cpu_num = 1;
          proc = set_num_threads (py_str cpu_num) proc;
          proc = pool_does [Pool_created (cpu_count proc)] proc in
      case self_element_to_graph self of
        None \<Rightarrow> (Inl AttributeError, self, proc)
      | Some items \<Rightarrow>
         (let proc = pool_does [Pool_map (length items) 1] proc in
          case pool_map
                 (get_expectation final_state_vector expectation_from_state_vector self) items of
            Inl e \<Rightarrow> (Inl e, self, proc)
          | Inr circ_res \<Rightarrow>
             (let proc = pool_does [Pool_terminated, Pool_joined] proc;
                  res = py_sum circ_res in
              (Inr res,
               self\<lparr>self_expectation_path := self_expectation_path self @ [res]\<rparr>,
               proc))))"

definition expectation_calculation ::
  "(entry list \<Rightarrow> error + 'st) \<Rightarrow> (pauli \<Rightarrow> 'st \<Rightarrow> (nat \<times> nat) list \<Rightarrow> error + complex) \<Rightarrow>
   engine \<Rightarrow> process \<Rightarrow> (error + real) \<times> engine \<times> process" where
  "expectation_calculation final_state_vector expectation_from_state_vector self proc =
     (if self_is_parallel self
      then expectation_calculation_parallel final_state_vector expectation_from_state_vector self proc
      else expectation_calculation_serial final_state_vector expectation_from_state_vector self proc)"

subsection \<open>The layer as the specification words it\<close>

text \<open>
  For comparison with \<open>layer\<close>: the same three loops, with the rotations of layer \<open>k\<close>
  taking the \<open>k\<close>-th entry of the gamma list and of the beta list, as the specification
  says (\<open>2 * gamma[layer] * nodes_weight[node]\<close>, \<open>2 * gamma[layer] * edges_weight[(u,v)]\<close>,
  \<open>2 * beta[layer]\<close>). A single angle is written as an array of one entry.
\<close>

definition entry_at :: "'a list \<Rightarrow> nat \<Rightarrow> error + 'a" where
  "entry_at xs k = (if k < length xs then Inr (xs ! k) else Inl IndexError)"

definition spec_node_phase ::
  "engine \<Rightarrow> int list \<Rightarrow> real list \<Rightarrow> nat \<Rightarrow> int \<Rightarrow> error + entry list" where
  "spec_node_phase self node_list gamma_list k i =
     (case entry_at gamma_list k of
        Inl e \<Rightarrow> Inl e
      | Inr gm \<Rightarrow>
         (case getitem (self_nodes_weight self) i of
            Inl e \<Rightarrow> Inl e
          | Inr w \<Rightarrow>
             (case qubit_at (length node_list) (node_to_qubit node_list i) of
                Inl e \<Rightarrow> Inl e
              | Inr q \<Rightarrow> Inr [Op (rz_on [2 * gm * w] q)])))"

definition spec_edge_coupling ::
  "engine \<Rightarrow> int list \<Rightarrow> real list \<Rightarrow> nat \<Rightarrow> int \<times> int \<Rightarrow> error + entry list" where
  "spec_edge_coupling self node_list gamma_list k edge =
     (let u = node_to_qubit node_list (fst edge);
          v = node_to_qubit node_list (snd edge) in
      if u = v then Inr []
      else
        case qubit_at (length node_list) u of
          Inl e \<Rightarrow> Inl e
        | Inr qu \<Rightarrow>
           (case qubit_at (length node_list) v of
              Inl e \<Rightarrow> Inl e
            | Inr qv \<Rightarrow>
               (case entry_at gamma_list k of
                  Inl e \<Rightarrow> Inl e
                | Inr gm \<Rightarrow>
                   (case getitem (self_edges_weight self) (fst edge, snd edge) of
                      Inl e \<Rightarrow> Inl e
                    | Inr w \<Rightarrow>
                       Inr [Op (CX_on qu qv), Op (rz_on [2 * gm * w] qv), Op (CX_on qu qv)]))))"

definition spec_node_mixer ::
  "int list \<Rightarrow> real list \<Rightarrow> nat \<Rightarrow> int \<Rightarrow> error + entry list" where
  "spec_node_mixer node_list beta_list k nd =
     (case entry_at beta_list k of
        Inl e \<Rightarrow> Inl e
      | Inr bt \<Rightarrow>
         (case qubit_at (length node_list) (node_to_qubit node_list nd) of
            Inl e \<Rightarrow> Inl e
          | Inr q \<Rightarrow> Inr [Moment (rx_on [2 * bt] q)]))"

definition spec_layer ::
  "engine \<Rightarrow> graph \<Rightarrow> real list \<Rightarrow> real list \<Rightarrow> nat \<Rightarrow> error + entry list" where
  "spec_layer self g gamma_list beta_list k =
     (case for_append (spec_node_phase self (nodes g) gamma_list k) (nodes g) of
        Inl e \<Rightarrow> Inl e
      | Inr a \<Rightarrow>
         (case for_append (spec_edge_coupling self (nodes g) gamma_list k) (edges g) of
            Inl e \<Rightarrow> Inl e
          | Inr b \<Rightarrow>
             (case for_append (spec_node_mixer (nodes g) beta_list k) (nodes g) of
                Inl e \<Rightarrow> Inl e
              | Inr c \<Rightarrow> Inr (a @ b @ c))))"

subsection \<open>The exact state of the Hadamard circuit and the exact value of a Z observable\<close>

text \<open>
  What the two library calls compute, in exact arithmetic, on the circuit
  \<open>hadamards n\<close>: the depth-zero claim is stated for a simulator and an evaluator that
  agree with these values. A basis state of \<open>n\<close> qubits is a list of \<open>n\<close> bits, bit
  \<open>q\<close> being the value of qubit \<open>q\<close>; a state vector lists the amplitudes of the
  basis states in the order of \<open>basis n\<close> (qubit \<open>0\<close> is the most significant bit).
\<close>

fun basis :: "nat \<Rightarrow> bool list list" where
  "basis 0 = [[]]"
| "basis (Suc n) = map ((#) False) (basis n) @ map ((#) True) (basis n)"

text \<open>The start state: amplitude \<open>1\<close> on the all-zero basis state.\<close>

definition zero_state :: "bool list \<Rightarrow> complex" where
  "zero_state bs = (if True \<in> set bs then 0 else 1)"

text \<open>
  The Hadamard gate on qubit \<open>q\<close>: the new amplitude of a basis state is the sum
  (difference, when bit \<open>q\<close> is set) of the old amplitudes of the two basis states that
  differ from it at most in bit \<open>q\<close>, divided by the square root of two.
\<close>

definition apply_H :: "nat \<Rightarrow> (bool list \<Rightarrow> complex) \<Rightarrow> bool list \<Rightarrow> complex" where
  "apply_H q psi bs =
     (psi (bs[q := False]) + (if bs ! q then - psi (bs[q := True]) else psi (bs[q := True])))
       / complex_of_real (sqrt 2)"

definition hadamard_state :: "nat \<Rightarrow> complex list" where
  "hadamard_state n = map (fold apply_H [0..<n] zero_state) (basis n)"

text \<open>
  \<open>Z\<close> on qubit \<open>q\<close> multiplies the amplitude of a basis state by \<open>-1\<close> when bit \<open>q\<close> is
  set; a product of observables multiplies by the product of the signs.
\<close>

fun z_sign :: "pauli \<Rightarrow> bool list \<Rightarrow> complex" where
  "z_sign (Z_on q) bs = (if bs ! q then - 1 else 1)"
| "z_sign (Mul a b) bs = z_sign a bs * z_sign b bs"

text \<open>The expectation of the observable on a state vector of \<open>n\<close> qubits.\<close>

definition z_expectation :: "nat \<Rightarrow> pauli \<Rightarrow> complex list \<Rightarrow> complex" where
  "z_expectation n ob state =
     sum_list (map (\<lambda>(bs, amp). cnj amp * z_sign ob bs * amp) (zip (basis n) state))"

section \<open>Properties\<close>

subsection \<open>Auxiliary facts\<close>

text \<open>No part of the per-term evaluation reads the expectation history.\<close>

lemma node_phase_path [simp]:
  "node_phase (self\<lparr>self_expectation_path := h\<rparr>) = node_phase self"
  by (intro ext) (simp add: node_phase_def Let_def cong: sum.case_cong)

lemma edge_coupling_path [simp]:
  "edge_coupling (self\<lparr>self_expectation_path := h\<rparr>) = edge_coupling self"
  by (intro ext) (simp add: edge_coupling_def Let_def cong: sum.case_cong if_cong)

lemma layer_path [simp]:
  "layer (self\<lparr>self_expectation_path := h\<rparr>) = layer self"
  by (intro ext) (simp add: layer_def cong: sum.case_cong)

lemma build_circuit_path [simp]:
  "build_circuit (self\<lparr>self_expectation_path := h\<rparr>) = build_circuit self"
  by (intro ext) (simp add: build_circuit_def cong: sum.case_cong option.case_cong)

lemma weight_and_op_path [simp]:
  "weight_and_op (self\<lparr>self_expectation_path := h\<rparr>) node_list el = weight_and_op self node_list el"
  by (cases el) (simp_all cong: sum.case_cong)

lemma get_expectation_path [simp]:
  "get_expectation F E (self\<lparr>self_expectation_path := h\<rparr>) = get_expectation F E self"
  by (intro ext) (simp add: get_expectation_def cong: sum.case_cong)

lemma serial_loop_pool_map:
  "serial_loop f acc xs =
     (case pool_map f xs of Inl e \<Rightarrow> Inl e | Inr ys \<Rightarrow> Inr (foldl (+) acc ys))"
  by (induction xs arbitrary: acc) (auto split: sum.splits)

lemma serial_eq_parallel:
  "fst (expectation_calculation_serial F E self proc) =
   fst (expectation_calculation_parallel F E self proc')"
  "fst (snd (expectation_calculation_serial F E self proc)) =
   fst (snd (expectation_calculation_parallel F E self proc'))"
  by (simp_all add: expectation_calculation_serial_def expectation_calculation_parallel_def
      serial_loop_pool_map py_sum_def Let_def split: option.splits sum.splits)

lemma entry_eq_serial:
  "fst (expectation_calculation F E self proc) =
   fst (expectation_calculation_serial F E self proc')"
  "fst (snd (expectation_calculation F E self proc)) =
   fst (snd (expectation_calculation_serial F E self proc'))"
  by (simp_all add: expectation_calculation_def expectation_calculation_serial_def
      expectation_calculation_parallel_def serial_loop_pool_map py_sum_def Let_def
      split: option.splits sum.splits)

text \<open>The local index map has the nodes of the subgraph as its keys.\<close>

lemma fold_store_index_Suc:
  "fold (store_index nl) [0..<Suc k] Map.empty =
     store_index nl k (fold (store_index nl) [0..<k] Map.empty)"
  by simp

lemma fold_index_dom:
  "k \<le> length nl \<Longrightarrow> dom (fold (store_index nl) [0..<k] Map.empty) = set (take k nl)"
proof (induction k)
  case 0
  then show ?case by simp
next
  case (Suc k)
  define m where "m = fold (store_index nl) [0..<k] Map.empty"
  from Suc have "dom m = set (take k nl)" and "k < length nl"
    by (simp_all add: m_def)
  then have "dom (store_index nl k m) = set (take (Suc k) nl)"
    by (simp add: store_index_def take_Suc_conv_app_nth)
  then show ?case
    unfolding fold_store_index_Suc m_def .
qed

lemma fold_index_Some:
  "fold (store_index nl) [0..<k] Map.empty x = Some i \<Longrightarrow> i < k \<and> nl ! i = x"
proof (induction k)
  case 0
  then show ?case by simp
next
  case (Suc k)
  define m where "m = fold (store_index nl) [0..<k] Map.empty"
  from Suc.prems have upd: "store_index nl k m x = Some i"
    unfolding fold_store_index_Suc m_def .
  show ?case
  proof (cases "nl ! k = x")
    case True
    with upd show ?thesis by (simp add: store_index_def)
  next
    case False
    with upd have "m x = Some i" by (simp add: store_index_def)
    with Suc.IH show ?thesis unfolding m_def by simp
  qed
qed

lemma node_to_qubit_of_dom: "dom (node_to_qubit_of nl) = set nl"
  using fold_index_dom [of "length nl" nl] by (simp add: node_to_qubit_of_def)

lemma node_to_qubit_of_Some:
  "node_to_qubit_of nl x = Some i \<Longrightarrow> i < length nl \<and> nl ! i = x"
  using fold_index_Some [of nl "length nl" x i] by (simp add: node_to_qubit_of_def)

lemma node_to_qubit_absent: "x \<notin> set nl \<Longrightarrow> node_to_qubit nl x = 0"
  using node_to_qubit_of_dom [of nl] by (auto simp: node_to_qubit_def split: option.splits)

lemma node_to_qubit_less: "nl \<noteq> [] \<Longrightarrow> node_to_qubit nl x < length nl"
  by (auto simp: node_to_qubit_def split: option.splits dest: node_to_qubit_of_Some)

lemma node_to_qubit_nth:
  "x \<in> set nl \<Longrightarrow> nl ! node_to_qubit nl x = x"
  using node_to_qubit_of_dom [of nl]
  by (auto simp: node_to_qubit_def split: option.splits dest: node_to_qubit_of_Some)

lemma for_append_append:
  "for_append body (xs @ ys) =
     (case for_append body xs of
        Inl e \<Rightarrow> Inl e
      | Inr a \<Rightarrow> (case for_append body ys of Inl e \<Rightarrow> Inl e | Inr b \<Rightarrow> Inr (a @ b)))"
  by (induction xs) (auto split: sum.splits)

lemma for_append_Inl:
  "for_append body xs = Inl e \<Longrightarrow> \<exists>x \<in> set xs. body x = Inl e"
  by (induction xs) (auto split: sum.splits)

lemma pool_map_Inl_iff:
  "(\<exists>e. pool_map f xs = Inl e) = (\<exists>x \<in> set xs. \<exists>e. f x = Inl e)"
  by (induction xs) (auto split: sum.splits)

subsection \<open>The strategies\<close>

lemma pool_map_Inr_iff: "(pool_map f xs = Inr ys) = (map f xs = map Inr ys)"
proof (induction xs arbitrary: ys)
  case Nil
  then show ?case by auto
next
  case (Cons x xs)
  show ?case
  proof (cases ys)
    case Nil
    then show ?thesis by (simp split: sum.splits)
  next
    case (Cons y ys')
    with Cons.IH [of ys'] show ?thesis by (auto split: sum.splits)
  qed
qed

lemma py_sum_sum_list: "py_sum xs = sum_list xs"
proof -
  have "foldl (+) a xs = a + sum_list xs" for a :: real
    by (induction xs arbitrary: a) simp_all
  then show ?thesis by (simp add: py_sum_def)
qed

text \<open>
  Claim C2. The serial and the parallel strategy return the same total, whatever the
  process each runs in: one returns the total \<open>res\<close> exactly when the other does, and
  that is exactly when every item of the mapping has a contribution and \<open>res\<close> is the
  sum of these contributions. Both add the contributions from the left, starting at
  \<open>0\<close>, in the order of the items, so the two totals agree even in the order of the
  additions.
\<close>

theorem serial_parallel_same_total:
  "((fst (expectation_calculation_serial F E self proc) = Inr res) =
    (fst (expectation_calculation_parallel F E self proc') = Inr res))
   \<and> ((fst (expectation_calculation_parallel F E self proc') = Inr res) =
    (\<exists>items xs. self_element_to_graph self = Some items \<and>
       map (get_expectation F E self) items = map Inr xs \<and> res = sum_list xs))"
proof -
  have "(fst (expectation_calculation_parallel F E self proc') = Inr res) =
    (\<exists>items xs. self_element_to_graph self = Some items \<and>
       pool_map (get_expectation F E self) items = Inr xs \<and> res = py_sum xs)"
    by (auto simp: expectation_calculation_parallel_def Let_def split: option.splits sum.splits)
  then show ?thesis
    by (simp add: serial_eq_parallel(1) [where proc = proc and proc' = proc'] pool_map_Inr_iff py_sum_sum_list)
qed

lemma serial_pool_events:
  "pool_events (snd (snd (expectation_calculation_serial F E self proc))) = pool_events proc"
  by (simp add: expectation_calculation_serial_def set_num_threads_def Let_def
      split: option.splits sum.splits)

lemma parallel_pool_events:
  "take (Suc (length (pool_events proc)))
     (pool_events (snd (snd (expectation_calculation_parallel F E self proc)))) =
   pool_events proc @ [Pool_created (cpu_count proc)]"
  by (simp add: expectation_calculation_parallel_def set_num_threads_def pool_does_def Let_def
      split: option.splits sum.splits)

lemma serial_os_environ:
  "os_environ (snd (snd (expectation_calculation_serial F E self proc))) ''OMP_NUM_THREADS'' =
     Some (py_str (cpu_count proc))"
  by (simp add: expectation_calculation_serial_def set_num_threads_def Let_def
      split: option.splits sum.splits)

lemma parallel_os_environ:
  "os_environ (snd (snd (expectation_calculation_parallel F E self proc))) ''OMP_NUM_THREADS'' =
     Some ''1''"
  by (simp add: expectation_calculation_parallel_def set_num_threads_def pool_does_def Let_def
      py_str.simps digit_char_def split: option.splits sum.splits)

lemma parallel_neq_serial:
  "expectation_calculation_parallel F E self proc \<noteq> expectation_calculation_serial F E self proc"
proof
  assume "expectation_calculation_parallel F E self proc = expectation_calculation_serial F E self proc"
  then have "pool_events (snd (snd (expectation_calculation_parallel F E self proc))) =
      pool_events proc"
    by (simp add: serial_pool_events)
  with parallel_pool_events [where proc = proc and F = F and E = E and self = self]
  show False by simp
qed

text \<open>
  Claim C4. The entry point runs the parallel strategy when the flag is true and the
  serial strategy when it is false, and the two are told apart by what they do to the
  process: with the flag false no pool event is added and \<open>OMP_NUM_THREADS\<close> is set to
  the host's core count, with the flag true the first event added is the creation of a
  pool of as many workers as the host has cores and \<open>OMP_NUM_THREADS\<close> is set to \<open>1\<close>;
  so on no input do the two strategies return the same. The constructor sets the flag to
  false when \<open>is_parallel\<close> is not supplied and to the supplied value otherwise.
\<close>

theorem expectation_calculation_dispatch:
  "expectation_calculation F E (self\<lparr>self_is_parallel := True\<rparr>) proc =
     expectation_calculation_parallel F E (self\<lparr>self_is_parallel := True\<rparr>) proc
   \<and> expectation_calculation F E (self\<lparr>self_is_parallel := False\<rparr>) proc =
     expectation_calculation_serial F E (self\<lparr>self_is_parallel := False\<rparr>) proc
   \<and> expectation_calculation_parallel F E self proc \<noteq>
     expectation_calculation_serial F E self proc
   \<and> pool_events (snd (snd
       (expectation_calculation F E (self\<lparr>self_is_parallel := False\<rparr>) proc))) =
     pool_events proc
   \<and> take (Suc (length (pool_events proc))) (pool_events (snd (snd
       (expectation_calculation F E (self\<lparr>self_is_parallel := True\<rparr>) proc)))) =
     pool_events proc @ [Pool_created (cpu_count proc)]
   \<and> os_environ (snd (snd
       (expectation_calculation F E (self\<lparr>self_is_parallel := False\<rparr>) proc)))
       ''OMP_NUM_THREADS'' = Some (py_str (cpu_count proc))
   \<and> os_environ (snd (snd
       (expectation_calculation F E (self\<lparr>self_is_parallel := True\<rparr>) proc)))
       ''OMP_NUM_THREADS'' = Some ''1''
   \<and> self_is_parallel (init nw ew None) = False
   \<and> self_is_parallel (init nw ew (Some b)) = b"
  by (simp add: expectation_calculation_def init_def parallel_neq_serial serial_pool_events
      parallel_pool_events serial_os_environ parallel_os_environ)

subsection \<open>The expectation history\<close>

lemma serial_snd:
  "fst (snd (expectation_calculation_serial F E self proc)) =
     self\<lparr>self_expectation_path := self_expectation_path self @
        (case fst (expectation_calculation_serial F E self proc) of
           Inl e \<Rightarrow> [] | Inr res \<Rightarrow> [res])\<rparr>"
  by (simp add: expectation_calculation_serial_def Let_def split: option.splits sum.splits)

lemma serial_fst_path:
  "fst (expectation_calculation_serial F E (self\<lparr>self_expectation_path := h\<rparr>) proc) =
   fst (expectation_calculation_serial F E self proc')"
  by (simp add: expectation_calculation_serial_def Let_def split: option.splits sum.splits)

text \<open>
  Claim C8. The history is append-only. After a call of either strategy the history is
  the old history followed by the returned total when the call returned one, and the
  old history when the call failed; so earlier entries are never changed or removed.
  The result of a call does not depend on the history the object holds: the engine
  never reads it back.
\<close>

theorem history_append_only:
  "self_expectation_path (fst (snd (expectation_calculation_serial F E self proc))) =
     self_expectation_path self @
       (case fst (expectation_calculation_serial F E self proc) of
          Inl e \<Rightarrow> [] | Inr res \<Rightarrow> [res])
   \<and> self_expectation_path (fst (snd (expectation_calculation_parallel F E self proc))) =
     self_expectation_path self @
       (case fst (expectation_calculation_parallel F E self proc) of
          Inl e \<Rightarrow> [] | Inr res \<Rightarrow> [res])
   \<and> fst (expectation_calculation_serial F E (self\<lparr>self_expectation_path := h\<rparr>) proc) =
       fst (expectation_calculation_serial F E self proc)
   \<and> fst (expectation_calculation_parallel F E (self\<lparr>self_expectation_path := h\<rparr>) proc) =
       fst (expectation_calculation_parallel F E self proc)"
proof -
  have ser: "self_expectation_path (fst (snd (expectation_calculation_serial F E self proc))) =
     self_expectation_path self @
       (case fst (expectation_calculation_serial F E self proc) of
          Inl e \<Rightarrow> [] | Inr res \<Rightarrow> [res])"
    by (subst serial_snd) simp
  have par: "fst (expectation_calculation_parallel F E x proc) =
      fst (expectation_calculation_serial F E x proc)"
    "fst (snd (expectation_calculation_parallel F E x proc)) =
      fst (snd (expectation_calculation_serial F E x proc))" for x
    by (simp_all add: serial_eq_parallel [where proc = proc and proc' = proc])
  show ?thesis
    unfolding par using ser serial_fst_path [where proc = proc and proc' = proc] by simp
qed

text \<open>
  Claim C9. A second call, on the object and in the process left by the first one,
  returns the same result: the call changes none of the weight mappings, the parameter
  vector, the depth and the element-to-subgraph mapping, and when the first call returns
  a total the history ends with that total twice.
\<close>

theorem repeated_call_same_total:
  "fst (expectation_calculation F E
         (fst (snd (expectation_calculation F E self proc)))
         (snd (snd (expectation_calculation F E self proc)))) =
     fst (expectation_calculation F E self proc)
   \<and> self_nodes_weight (fst (snd (expectation_calculation F E self proc))) =
       self_nodes_weight self
   \<and> self_edges_weight (fst (snd (expectation_calculation F E self proc))) =
       self_edges_weight self
   \<and> self_pargs (fst (snd (expectation_calculation F E self proc))) = self_pargs self
   \<and> self_p (fst (snd (expectation_calculation F E self proc))) = self_p self
   \<and> self_element_to_graph (fst (snd (expectation_calculation F E self proc))) =
       self_element_to_graph self
   \<and> self_expectation_path (fst (snd (expectation_calculation F E
         (fst (snd (expectation_calculation F E self proc)))
         (snd (snd (expectation_calculation F E self proc)))))) =
       self_expectation_path self @
         (case fst (expectation_calculation F E self proc) of
            Inl e \<Rightarrow> [] | Inr res \<Rightarrow> [res, res])"
proof -
  let ?r = "fst (expectation_calculation_serial F E self proc)"
  let ?s = "fst (snd (expectation_calculation_serial F E self proc))"
  let ?q = "snd (snd (expectation_calculation F E self proc))"
  have s: "?s = self\<lparr>self_expectation_path := self_expectation_path self @
        (case ?r of Inl e \<Rightarrow> [] | Inr res \<Rightarrow> [res])\<rparr>"
    by (rule serial_snd)
  have again: "fst (expectation_calculation_serial F E ?s ?q) = ?r"
    by (subst s) (rule serial_fst_path)
  have path2: "self_expectation_path (fst (snd (expectation_calculation_serial F E ?s ?q))) =
      self_expectation_path ?s @ (case ?r of Inl e \<Rightarrow> [] | Inr res \<Rightarrow> [res])"
    by (subst serial_snd) (simp add: again)
  have path1: "self_expectation_path ?s = self_expectation_path self @
        (case ?r of Inl e \<Rightarrow> [] | Inr res \<Rightarrow> [res])"
    by (subst s) simp
  have fields: "self_nodes_weight ?s = self_nodes_weight self"
    "self_edges_weight ?s = self_edges_weight self"
    "self_pargs ?s = self_pargs self" "self_p ?s = self_p self"
    "self_element_to_graph ?s = self_element_to_graph self"
    by (subst s, simp)+
  have entry: "fst (expectation_calculation F E x q) = fst (expectation_calculation_serial F E x q)"
    "fst (snd (expectation_calculation F E x q)) =
       fst (snd (expectation_calculation_serial F E x q))" for x q
    by (simp_all add: entry_eq_serial [where proc = q and proc' = q])
  show ?thesis
    unfolding entry using again fields path2 path1
    by (simp split: sum.splits)
qed

subsection \<open>The per-term evaluator\<close>

lemma qubit_at_local_index:
  "qubit_at (length nl) (node_to_qubit nl x) =
     (if nl = [] then Inl IndexError else Inr (node_to_qubit nl x))"
  by (simp add: qubit_at_def node_to_qubit_less)

lemma weight_and_op_Node_iff:
  "(weight_and_op self nl (Node a) = Inr (w, ob)) =
     (getitem (self_nodes_weight self) a = Inr w \<and> nl \<noteq> [] \<and> ob = Z_on (node_to_qubit nl a))"
  by (auto simp: qubit_at_local_index split: sum.splits)

lemma weight_and_op_Edge_iff:
  "(weight_and_op self nl (Edge a b) = Inr (w, ob)) =
     (getitem (self_edges_weight self) (a, b) = Inr w \<and> nl \<noteq> [] \<and>
      ob = Mul (Z_on (node_to_qubit nl a)) (Z_on (node_to_qubit nl b)))"
  by (auto simp: qubit_at_local_index split: sum.splits)

lemma get_expectation_Inr_iff:
  "(get_expectation F E self (el, g) = Inr r) =
     (\<exists>circ state weight ob z.
        build_circuit self g = Inr circ \<and> weight_and_op self (nodes g) el = Inr (weight, ob) \<and>
        F circ = Inr state \<and> E ob state (qubit_map (length (nodes g))) = Inr z \<and>
        r = weight * Re z)"
  by (auto simp: get_expectation_def split: sum.splits prod.splits)

text \<open>
  Claim C3. The per-term evaluator returns \<open>r\<close> exactly when the circuit of the subgraph
  is built, the weight of the element is found, the simulation gives a state and the
  observable's expectation on that state is \<open>z\<close>, with \<open>r = weight * Re z\<close>. For a node
  \<open>a\<close> the weight is \<open>nodes_weight[a]\<close> and the observable is \<open>Z\<close> on the local qubit of
  \<open>a\<close>; for an edge \<open>(a, b)\<close> the weight is \<open>edges_weight[(a, b)]\<close> and the observable is
  the product of \<open>Z\<close> on the local qubit of \<open>a\<close> and \<open>Z\<close> on the local qubit of \<open>b\<close>.
\<close>

theorem get_expectation_value:
  "((get_expectation F E self (Node a, g) = Inr r) =
      (\<exists>circ state weight z.
         build_circuit self g = Inr circ \<and> F circ = Inr state \<and>
         getitem (self_nodes_weight self) a = Inr weight \<and> nodes g \<noteq> [] \<and>
         E (Z_on (node_to_qubit (nodes g) a)) state (qubit_map (length (nodes g))) = Inr z \<and>
         r = weight * Re z))
   \<and> ((get_expectation F E self (Edge a b, g) = Inr r) =
      (\<exists>circ state weight z.
         build_circuit self g = Inr circ \<and> F circ = Inr state \<and>
         getitem (self_edges_weight self) (a, b) = Inr weight \<and> nodes g \<noteq> [] \<and>
         E (Mul (Z_on (node_to_qubit (nodes g) a)) (Z_on (node_to_qubit (nodes g) b))) state
           (qubit_map (length (nodes g))) = Inr z \<and>
         r = weight * Re z))"
  unfolding get_expectation_Inr_iff weight_and_op_Node_iff weight_and_op_Edge_iff
  by blast

subsection \<open>Self-loop edges\<close>

lemma edge_coupling_self_loop:
  "node_to_qubit nl (fst e) = node_to_qubit nl (snd e) \<Longrightarrow> edge_coupling self nl gamma_list e = Inr []"
  by (simp add: edge_coupling_def)

lemma for_append_skip:
  "body x = Inr [] \<Longrightarrow> for_append body (xs @ x # ys) = for_append body (xs @ ys)"
  by (simp add: for_append_append split: sum.splits)

lemma layer_self_loop:
  assumes "node_to_qubit (nodes g) (fst e) = node_to_qubit (nodes g) (snd e)"
  shows "layer self (g\<lparr>edges := es1 @ e # es2\<rparr>) gamma_list beta_list k =
         layer self (g\<lparr>edges := es1 @ es2\<rparr>) gamma_list beta_list k"
proof -
  have "edge_coupling self (nodes g) gamma_list e = Inr []"
    using assms by (rule edge_coupling_self_loop)
  then have "for_append (edge_coupling self (nodes g) gamma_list) (es1 @ e # es2) =
             for_append (edge_coupling self (nodes g) gamma_list) (es1 @ es2)"
    by (rule for_append_skip)
  then show ?thesis by (simp add: layer_def cong: sum.case_cong)
qed

lemma build_circuit_self_loop:
  assumes "node_to_qubit (nodes g) (fst e) = node_to_qubit (nodes g) (snd e)"
  shows "build_circuit self (g\<lparr>edges := es1 @ e # es2\<rparr>) = build_circuit self (g\<lparr>edges := es1 @ es2\<rparr>)"
proof -
  have "layer self (g\<lparr>edges := es1 @ e # es2\<rparr>) = layer self (g\<lparr>edges := es1 @ es2\<rparr>)"
    by (intro ext) (rule layer_self_loop [OF assms])
  then show ?thesis by (simp add: build_circuit_def Let_def cong: sum.case_cong option.case_cong)
qed

text \<open>
  Claim C6. An edge whose two endpoints have the same local qubit appends nothing to the
  circuit and raises nothing (its weight is not even looked up). The circuit, and with
  it the whole per-term evaluation, is the same as for the subgraph without that edge,
  wherever the edge stands in the edge list.
\<close>

theorem self_loop_edge_skipped:
  assumes "node_to_qubit (nodes g) (fst e) = node_to_qubit (nodes g) (snd e)"
  shows "edge_coupling self (nodes g) gamma_list e = Inr []
    \<and> build_circuit self (g\<lparr>edges := es1 @ e # es2\<rparr>) = build_circuit self (g\<lparr>edges := es1 @ es2\<rparr>)
    \<and> get_expectation F E self (el, g\<lparr>edges := es1 @ e # es2\<rparr>) =
        get_expectation F E self (el, g\<lparr>edges := es1 @ es2\<rparr>)"
proof -
  have b: "build_circuit self (g\<lparr>edges := es1 @ e # es2\<rparr>) = build_circuit self (g\<lparr>edges := es1 @ es2\<rparr>)"
    using assms by (rule build_circuit_self_loop)
  then have "get_expectation F E self (el, g\<lparr>edges := es1 @ e # es2\<rparr>) =
        get_expectation F E self (el, g\<lparr>edges := es1 @ es2\<rparr>)"
    by (simp add: get_expectation_def Let_def cong: sum.case_cong)
  with b edge_coupling_self_loop [OF assms] show ?thesis by simp
qed

theorem self_loop_edge_skipped_witness:
  "edge_coupling
       \<lparr>self_p = Some 1, self_nodes_weight = Some [7 \<mapsto> 1, 8 \<mapsto> 1],
        self_edges_weight = Some [(7, 8) \<mapsto> 3], self_is_parallel = False,
        self_element_to_graph = None, self_pargs = Some [1, 1],
        self_expectation_path = []\<rparr> [7, 8] [1] (8, 8) = Inr []
   \<and> build_circuit
       \<lparr>self_p = Some 1, self_nodes_weight = Some [7 \<mapsto> 1, 8 \<mapsto> 1],
        self_edges_weight = Some [(7, 8) \<mapsto> 3], self_is_parallel = False,
        self_element_to_graph = None, self_pargs = Some [1, 1],
        self_expectation_path = []\<rparr>
       \<lparr>nodes = [7, 8], edges = [(8, 8), (7, 8)]\<rparr> =
     Inr [Op (H_on 0), Op (H_on 1), Op (rz_on [2] 0), Op (rz_on [2] 1),
          Op (CX_on 0 1), Op (rz_on [6] 1), Op (CX_on 0 1),
          Moment (rx_on [2] 0), Moment (rx_on [2] 1)]"
  using self_loop_edge_skipped [where g = "\<lparr>nodes = [7, 8], edges = []\<rparr>" and e = "(8, 8)"
      and ?es1.0 = "[]" and ?es2.0 = "[(7, 8)]" and gamma_list = "[1]"
      and self = "\<lparr>self_p = Some 1, self_nodes_weight = Some [7 \<mapsto> 1, 8 \<mapsto> 1],
        self_edges_weight = Some [(7, 8) \<mapsto> 3], self_is_parallel = False,
        self_element_to_graph = None, self_pargs = Some [1, 1],
        self_expectation_path = []\<rparr>"]
  by (simp add: build_circuit_def layer_def node_phase_def edge_coupling_def node_mixer_def
      node_to_qubit_def node_to_qubit_of_def store_index_def upt_rec qubit_at_def hadamards_def
      eval_nat_numeral)

subsection \<open>Missing weights\<close>

lemma node_phase_error:
  assumes "self_nodes_weight self = Some nw" and "i \<in> set nl"
    and "node_phase self nl gamma_list i = Inl e"
  shows "e = KeyError"
proof -
  from assms(2) have "nl \<noteq> []" by auto
  with assms(1,3) show ?thesis
    by (auto simp: node_phase_def qubit_at_local_index split: option.splits sum.splits)
qed

lemma node_to_qubit_Nil: "node_to_qubit [] x = 0"
  by (simp add: node_to_qubit_absent)

lemma edge_coupling_error:
  assumes "self_edges_weight self = Some ew"
    and "edge_coupling self nl gamma_list edge = Inl e"
  shows "e = KeyError"
proof (cases "nl = []")
  case True
  with assms(2) show ?thesis
    by (simp add: edge_coupling_def node_to_qubit_Nil)
next
  case False
  with assms show ?thesis
    by (auto simp: edge_coupling_def qubit_at_local_index Let_def
        split: option.splits sum.splits if_splits)
qed

lemma node_mixer_error:
  assumes "nd \<in> set nl" and "node_mixer nl beta_list nd = Inl e"
  shows False
proof -
  from assms(1) have "nl \<noteq> []" by auto
  with assms(2) show ?thesis
    by (simp add: node_mixer_def qubit_at_local_index)
qed

lemma layer_error:
  assumes "self_nodes_weight self = Some nw" and "self_edges_weight self = Some ew"
    and "layer self g gamma_list beta_list k = Inl e"
  shows "e = KeyError"
proof -
  consider
    (a) "for_append (node_phase self (nodes g) gamma_list) (nodes g) = Inl e"
  | (b) "for_append (edge_coupling self (nodes g) gamma_list) (edges g) = Inl e"
  | (c) "for_append (node_mixer (nodes g) beta_list) (nodes g) = Inl e"
    using assms(3) by (auto simp: layer_def split: sum.splits)
  then show ?thesis
  proof cases
    case a
    then obtain i where "i \<in> set (nodes g)" "node_phase self (nodes g) gamma_list i = Inl e"
      by (blast dest: for_append_Inl)
    with assms(1) show ?thesis by (rule node_phase_error)
  next
    case b
    then obtain ed where "edge_coupling self (nodes g) gamma_list ed = Inl e"
      by (blast dest: for_append_Inl)
    with assms(2) show ?thesis by (rule edge_coupling_error)
  next
    case c
    then obtain nd where "nd \<in> set (nodes g)" "node_mixer (nodes g) beta_list nd = Inl e"
      by (blast dest: for_append_Inl)
    then show ?thesis by (blast dest: node_mixer_error)
  qed
qed

lemma build_circuit_error:
  assumes "self_pargs self = Some pargs" and "self_p self = Some p"
    and "self_nodes_weight self = Some nw" and "self_edges_weight self = Some ew"
    and "build_circuit self g = Inl e"
  shows "e = KeyError"
proof -
  from assms(1,2,5)
  have "\<exists>gl bl ks. for_append (layer self g gl bl) ks = Inl e"
    by (auto simp: build_circuit_def Let_def split: sum.splits)
  then obtain gl bl k where "layer self g gl bl k = Inl e"
    by (blast dest: for_append_Inl)
  with assms(3,4) show ?thesis by (rule layer_error)
qed

lemma pool_map_fails:
  "x \<in> set xs \<Longrightarrow> f x = Inl e \<Longrightarrow> \<exists>e'. pool_map f xs = Inl e'"
  using pool_map_Inl_iff [of f xs] by blast

text \<open>
  Claim C7. With the depth, the parameter vector and both weight mappings attached, an
  element that is absent from its weight mapping makes the per-term evaluation fail with
  a \<open>KeyError\<close>. Every computation call over a mapping that holds such an element fails:
  it returns no total and leaves the object as it was.
\<close>

theorem missing_weight_key_error:
  assumes "self_pargs self = Some pargs" and "self_p self = Some p"
    and "self_nodes_weight self = Some nw" and "self_edges_weight self = Some ew"
    and "self_element_to_graph self = Some items" and "(el, g) \<in> set items"
    and "(case el of Node a \<Rightarrow> nw a = None | Edge a b \<Rightarrow> ew (a, b) = None)"
  shows "get_expectation F E self (el, g) = Inl KeyError
    \<and> (\<exists>e proc'. expectation_calculation_serial F E self proc = (Inl e, self, proc'))
    \<and> (\<exists>e proc'. expectation_calculation_parallel F E self proc = (Inl e, self, proc'))
    \<and> (\<exists>e proc'. expectation_calculation F E self proc = (Inl e, self, proc'))"
proof -
  have w: "weight_and_op self (nodes g) el = Inl KeyError"
    using assms(3,4,7) by (cases el) simp_all
  have per_term: "get_expectation F E self (el, g) = Inl KeyError"
  proof (cases "build_circuit self g")
    case (Inl e)
    with assms(1-4) have "e = KeyError" by (blast dest: build_circuit_error)
    with Inl show ?thesis by (simp add: get_expectation_def)
  next
    case (Inr circ)
    with w show ?thesis by (simp add: get_expectation_def)
  qed
  from assms(6) per_term obtain e where "pool_map (get_expectation F E self) items = Inl e"
    by (blast dest: pool_map_fails)
  with assms(5) have par: "\<exists>proc'. expectation_calculation_parallel F E self proc = (Inl e, self, proc')"
    by (simp add: expectation_calculation_parallel_def Let_def)
  from assms(6) per_term have "\<exists>e. serial_loop (get_expectation F E self) 0 items = Inl e"
    using pool_map_fails [of "(el, g)" items "get_expectation F E self" KeyError]
    by (auto simp: serial_loop_pool_map split: sum.splits)
  with assms(5) have ser: "\<exists>e proc'. expectation_calculation_serial F E self proc = (Inl e, self, proc')"
    by (auto simp: expectation_calculation_serial_def Let_def)
  from par ser have "\<exists>e proc'. expectation_calculation F E self proc = (Inl e, self, proc')"
    by (cases "self_is_parallel self") (auto simp: expectation_calculation_def)
  with per_term par ser show ?thesis by blast
qed

theorem missing_weight_key_error_witness:
  "get_expectation (\<lambda>circ. Inr ()) (\<lambda>ob state qm. Inr 0)
     \<lparr>self_p = Some 1, self_nodes_weight = Some [1 \<mapsto> 1, 2 \<mapsto> 1],
      self_edges_weight = Some Map.empty, self_is_parallel = False,
      self_element_to_graph = Some [(Node 1, \<lparr>nodes = [1, 2], edges = []\<rparr>),
                                    (Edge 1 2, \<lparr>nodes = [1, 2], edges = []\<rparr>)],
      self_pargs = Some [1, 1], self_expectation_path = []\<rparr>
     (Edge 1 2, \<lparr>nodes = [1, 2], edges = []\<rparr>) = Inl KeyError
   \<and> (\<exists>e proc'. expectation_calculation (\<lambda>circ. Inr ()) (\<lambda>ob state qm. Inr 0)
     \<lparr>self_p = Some 1, self_nodes_weight = Some [1 \<mapsto> 1, 2 \<mapsto> 1],
      self_edges_weight = Some Map.empty, self_is_parallel = False,
      self_element_to_graph = Some [(Node 1, \<lparr>nodes = [1, 2], edges = []\<rparr>),
                                    (Edge 1 2, \<lparr>nodes = [1, 2], edges = []\<rparr>)],
      self_pargs = Some [1, 1], self_expectation_path = []\<rparr>
     \<lparr>cpu_count = 4, os_environ = Map.empty, pool_events = []\<rparr> =
     (Inl e,
     \<lparr>self_p = Some 1, self_nodes_weight = Some [1 \<mapsto> 1, 2 \<mapsto> 1],
      self_edges_weight = Some Map.empty, self_is_parallel = False,
      self_element_to_graph = Some [(Node 1, \<lparr>nodes = [1, 2], edges = []\<rparr>),
                                    (Edge 1 2, \<lparr>nodes = [1, 2], edges = []\<rparr>)],
      self_pargs = Some [1, 1], self_expectation_path = []\<rparr>,
     proc'))"
  using missing_weight_key_error [where el = "Edge 1 2" and g = "\<lparr>nodes = [1, 2], edges = []\<rparr>"
      and pargs = "[1, 1]" and p = 1 and nw = "[1 \<mapsto> 1, 2 \<mapsto> 1]" and ew = Map.empty
      and items = "[(Node 1, \<lparr>nodes = [1, 2], edges = []\<rparr>),
                    (Edge 1 2, \<lparr>nodes = [1, 2], edges = []\<rparr>)]"
      and F = "\<lambda>circ. Inr ()" and E = "\<lambda>ob state qm. Inr 0"
      and proc = "\<lparr>cpu_count = 4, os_environ = Map.empty, pool_events = []\<rparr>"
      and self = "\<lparr>self_p = Some 1, self_nodes_weight = Some [1 \<mapsto> 1, 2 \<mapsto> 1],
      self_edges_weight = Some Map.empty, self_is_parallel = False,
      self_element_to_graph = Some [(Node 1, \<lparr>nodes = [1, 2], edges = []\<rparr>),
                                    (Edge 1 2, \<lparr>nodes = [1, 2], edges = []\<rparr>)],
      self_pargs = Some [1, 1], self_expectation_path = []\<rparr>"]
  by simp

subsection \<open>The layers of the circuit\<close>

lemma layer_index_unused: "layer self g gamma_list beta_list k = layer self g gamma_list beta_list 0"
  by (simp add: layer_def)

lemma layer_depth_one:
  "layer self g [gm] [bt] 0 = spec_layer self g [gm] [bt] 0"
proof -
  have "node_phase self (nodes g) [gm] = spec_node_phase self (nodes g) [gm] 0"
    by (intro ext) (simp add: node_phase_def spec_node_phase_def entry_at_def cong: sum.case_cong)
  moreover have "edge_coupling self (nodes g) [gm] = spec_edge_coupling self (nodes g) [gm] 0"
    by (intro ext) (simp add: edge_coupling_def spec_edge_coupling_def entry_at_def Let_def cong: sum.case_cong if_cong)
  moreover have "node_mixer (nodes g) [bt] = spec_node_mixer (nodes g) [bt] 0"
    by (intro ext) (simp add: node_mixer_def spec_node_mixer_def entry_at_def cong: sum.case_cong)
  ultimately show ?thesis
    by (simp add: layer_def spec_layer_def cong: sum.case_cong)
qed

text \<open>
  Claim C1. At depth \<open>2\<close> with parameter vector \<open>[1, 2, 3, 4]\<close> (gamma \<open>[1, 2]\<close>, beta
  \<open>[3, 4]\<close>), two nodes and one edge, all weights \<open>1\<close>, every rotation the source appends
  carries the whole gamma array \<open>[2, 4]\<close> or the whole beta array \<open>[6, 8]\<close>, in both
  layers alike; the layers the specification describes carry \<open>2\<close> and \<open>6\<close> in layer \<open>0\<close>
  and \<open>4\<close> and \<open>8\<close> in layer \<open>1\<close>.
\<close>

theorem layer_uses_whole_parameter_arrays:
  "build_circuit
     \<lparr>self_p = Some 2, self_nodes_weight = Some [0 \<mapsto> 1, 1 \<mapsto> 1],
      self_edges_weight = Some [(0, 1) \<mapsto> 1], self_is_parallel = False,
      self_element_to_graph = None, self_pargs = Some [1, 2, 3, 4],
      self_expectation_path = []\<rparr>
     \<lparr>nodes = [0, 1], edges = [(0, 1)]\<rparr> =
   Inr [Op (H_on 0), Op (H_on 1),
        Op (rz_on [2, 4] 0), Op (rz_on [2, 4] 1),
        Op (CX_on 0 1), Op (rz_on [2, 4] 1), Op (CX_on 0 1),
        Moment (rx_on [6, 8] 0), Moment (rx_on [6, 8] 1),
        Op (rz_on [2, 4] 0), Op (rz_on [2, 4] 1),
        Op (CX_on 0 1), Op (rz_on [2, 4] 1), Op (CX_on 0 1),
        Moment (rx_on [6, 8] 0), Moment (rx_on [6, 8] 1)]
   \<and> for_append
     (spec_layer
       \<lparr>self_p = Some 2, self_nodes_weight = Some [0 \<mapsto> 1, 1 \<mapsto> 1],
        self_edges_weight = Some [(0, 1) \<mapsto> 1], self_is_parallel = False,
        self_element_to_graph = None, self_pargs = Some [1, 2, 3, 4],
        self_expectation_path = []\<rparr>
       \<lparr>nodes = [0, 1], edges = [(0, 1)]\<rparr> [1, 2] [3, 4]) [0, 1] =
   Inr [Op (rz_on [2] 0), Op (rz_on [2] 1),
        Op (CX_on 0 1), Op (rz_on [2] 1), Op (CX_on 0 1),
        Moment (rx_on [6] 0), Moment (rx_on [6] 1),
        Op (rz_on [4] 0), Op (rz_on [4] 1),
        Op (CX_on 0 1), Op (rz_on [4] 1), Op (CX_on 0 1),
        Moment (rx_on [8] 0), Moment (rx_on [8] 1)]"
  by (simp add: build_circuit_def layer_def node_phase_def edge_coupling_def node_mixer_def
      spec_layer_def spec_node_phase_def spec_edge_coupling_def spec_node_mixer_def entry_at_def
      node_to_qubit_def node_to_qubit_of_def store_index_def upt_rec qubit_at_def hadamards_def
      eval_nat_numeral)

subsection \<open>Nodes that the subgraph does not contain\<close>

text \<open>
  Claim C10, as stated, fails on a subgraph without nodes: the node \<open>5\<close> is not in the
  empty node list and gets local index \<open>0\<close>, but there is no qubit \<open>0\<close> to put the
  observable on, and \<open>qubits[0]\<close> raises.
\<close>

theorem absent_node_empty_subgraph_counterexample:
  "5 \<notin> set (nodes \<lparr>nodes = [], edges = []\<rparr>)
   \<and> node_to_qubit (nodes \<lparr>nodes = [], edges = []\<rparr>) 5 = 0
   \<and> get_expectation (\<lambda>circ. Inr ()) (\<lambda>ob state qm. Inr 0)
       \<lparr>self_p = Some 0, self_nodes_weight = Some [5 \<mapsto> 1],
        self_edges_weight = Some Map.empty, self_is_parallel = False,
        self_element_to_graph = None, self_pargs = Some [],
        self_expectation_path = []\<rparr>
       (Node 5, \<lparr>nodes = [], edges = []\<rparr>) = Inl IndexError"
  by (simp add: get_expectation_def build_circuit_def hadamards_def qubit_at_def
      node_to_qubit_def node_to_qubit_of_def)

text \<open>
  Claim C10, amended. When the subgraph has at least one node, a node \<open>a\<close> that is not
  among the subgraph's nodes gets local index \<open>0\<close> and its factor of the observable is \<open>Z\<close>
  on local qubit \<open>0\<close>: the only error the choice of weight and observable can raise is
  that of the weight lookup.
\<close>

theorem absent_node_default_qubit:
  assumes "nodes g \<noteq> []" and "a \<notin> set (nodes g)"
  shows "node_to_qubit (nodes g) a = 0
    \<and> weight_and_op self (nodes g) (Node a) =
        (case getitem (self_nodes_weight self) a of
           Inl e \<Rightarrow> Inl e | Inr w \<Rightarrow> Inr (w, Z_on 0))
    \<and> weight_and_op self (nodes g) (Edge a b) =
        (case getitem (self_edges_weight self) (a, b) of
           Inl e \<Rightarrow> Inl e | Inr w \<Rightarrow> Inr (w, Mul (Z_on 0) (Z_on (node_to_qubit (nodes g) b))))
    \<and> weight_and_op self (nodes g) (Edge b a) =
        (case getitem (self_edges_weight self) (b, a) of
           Inl e \<Rightarrow> Inl e | Inr w \<Rightarrow> Inr (w, Mul (Z_on (node_to_qubit (nodes g) b)) (Z_on 0)))"
proof -
  from assms(2) have a: "node_to_qubit (nodes g) a = 0"
    by (rule node_to_qubit_absent)
  from assms(1) have q: "\<And>x. qubit_at (length (nodes g)) (node_to_qubit (nodes g) x) =
      Inr (node_to_qubit (nodes g) x)"
    by (simp add: qubit_at_local_index)
  from assms(1) have q0: "qubit_at (length (nodes g)) 0 = Inr 0"
    by (simp add: qubit_at_def)
  have "weight_and_op self (nodes g) (Node a) =
        (case getitem (self_nodes_weight self) a of
           Inl e \<Rightarrow> Inl e | Inr w \<Rightarrow> Inr (w, Z_on 0))"
    by (simp add: q q0 a cong: sum.case_cong)
  moreover have "weight_and_op self (nodes g) (Edge a b) =
        (case getitem (self_edges_weight self) (a, b) of
           Inl e \<Rightarrow> Inl e | Inr w \<Rightarrow> Inr (w, Mul (Z_on 0) (Z_on (node_to_qubit (nodes g) b))))"
    by (simp add: q q0 a cong: sum.case_cong)
  moreover have "weight_and_op self (nodes g) (Edge b a) =
        (case getitem (self_edges_weight self) (b, a) of
           Inl e \<Rightarrow> Inl e | Inr w \<Rightarrow> Inr (w, Mul (Z_on (node_to_qubit (nodes g) b)) (Z_on 0)))"
    by (simp add: q q0 a cong: sum.case_cong)
  ultimately show ?thesis using a by simp
qed

theorem absent_node_default_qubit_witness:
  "nodes \<lparr>nodes = [3, 4], edges = []\<rparr> \<noteq> []
   \<and> 9 \<notin> set (nodes \<lparr>nodes = [3, 4], edges = []\<rparr>)
   \<and> node_to_qubit [3, 4] 9 = 0
   \<and> weight_and_op
        \<lparr>self_p = Some 0, self_nodes_weight = Some [9 \<mapsto> 2],
         self_edges_weight = Some [(9, 4) \<mapsto> 5], self_is_parallel = False,
         self_element_to_graph = None, self_pargs = Some [],
         self_expectation_path = []\<rparr> [3, 4] (Node 9) = Inr (2, Z_on 0)
   \<and> weight_and_op
        \<lparr>self_p = Some 0, self_nodes_weight = Some [9 \<mapsto> 2],
         self_edges_weight = Some [(9, 4) \<mapsto> 5], self_is_parallel = False,
         self_element_to_graph = None, self_pargs = Some [],
         self_expectation_path = []\<rparr> [3, 4] (Edge 9 4) = Inr (5, Mul (Z_on 0) (Z_on 1))"
  using absent_node_default_qubit [where g = "\<lparr>nodes = [3, 4], edges = []\<rparr>" and a = 9 and b = 4
      and self = "\<lparr>self_p = Some 0, self_nodes_weight = Some [9 \<mapsto> 2],
         self_edges_weight = Some [(9, 4) \<mapsto> 5], self_is_parallel = False,
         self_element_to_graph = None, self_pargs = Some [],
         self_expectation_path = []\<rparr>"]
  by (simp add: node_to_qubit_def node_to_qubit_of_def store_index_def upt_rec)

subsection \<open>Depth zero\<close>

lemma basis_length: "bs \<in> set (basis n) \<Longrightarrow> length bs = n"
  by (induction n arbitrary: bs) auto

lemma drop_update_same:
  "k < length bs \<Longrightarrow> drop k (bs[k := b]) = b # drop (Suc k) bs"
  by (simp add: drop_update_swap flip: Cons_nth_drop_Suc)

lemma fold_apply_H_Suc:
  "fold apply_H [0..<Suc k] psi = apply_H k (fold apply_H [0..<k] psi)"
  by simp

lemma hadamard_prefix:
  "k \<le> length bs \<Longrightarrow>
   fold apply_H [0..<k] zero_state bs =
     (if True \<in> set (drop k bs) then 0 else (1 / complex_of_real (sqrt 2)) ^ k)"
proof (induction k arbitrary: bs)
  case 0
  then show ?case by (simp add: zero_state_def)
next
  case (Suc k)
  define psi where "psi = fold apply_H [0..<k] zero_state"
  from Suc.prems have k: "k < length bs" by simp
  have f: "psi (bs[k := False]) =
      (if True \<in> set (drop (Suc k) bs) then 0 else (1 / complex_of_real (sqrt 2)) ^ k)"
    unfolding psi_def using k by (subst Suc.IH) (simp_all add: drop_update_same)
  have t: "psi (bs[k := True]) = 0"
    unfolding psi_def using k by (subst Suc.IH) (simp_all add: drop_update_same)
  have "apply_H k psi bs =
      (if True \<in> set (drop (Suc k) bs) then 0 else (1 / complex_of_real (sqrt 2)) ^ Suc k)"
    by (simp add: apply_H_def f t)
  then show ?case
    unfolding fold_apply_H_Suc psi_def .
qed

lemma hadamard_state_uniform:
  "hadamard_state n = map (\<lambda>bs. (1 / complex_of_real (sqrt 2)) ^ n) (basis n)"
  unfolding hadamard_state_def
  by (rule map_cong [OF refl]) (simp add: hadamard_prefix basis_length)

lemma sum_list_scaled:
  "sum_list (map (\<lambda>x. cnj c * f x * c) xs) = cnj c * c * sum_list (map f xs)"
  for c :: complex
  by (induction xs) (simp_all add: algebra_simps)

lemma z_expectation_uniform:
  "z_expectation n ob (map (\<lambda>bs. c) (basis n)) =
     cnj c * c * sum_list (map (z_sign ob) (basis n))"
proof -
  have "zip (basis n) (map (\<lambda>bs. c) (basis n)) = map (\<lambda>bs. (bs, c)) (basis n)"
    by (simp add: zip_map2 zip_same_conv_map)
  then show ?thesis
    by (simp add: z_expectation_def o_def sum_list_scaled)
qed

lemma sum_list_negated:
  "sum_list (map (\<lambda>x. - f x) xs) = - sum_list (map f xs)"
  for f :: "'a \<Rightarrow> complex"
  by (induction xs) simp_all

lemma z_sign_fun:
  "z_sign (Z_on q) = (\<lambda>bs. if bs ! q then - 1 else 1)"
  "z_sign (Mul (Z_on a) (Z_on b)) =
     (\<lambda>bs. (if bs ! a then - 1 else 1) * (if bs ! b then - 1 else 1))"
  by (rule ext, simp)+

lemma z_sign_single_sum:
  "q < n \<Longrightarrow> sum_list (map (z_sign (Z_on q)) (basis n)) = 0"
proof (induction n arbitrary: q)
  case 0
  then show ?case by simp
next
  case (Suc n)
  show ?case
  proof (cases q)
    case 0
    then show ?thesis by (simp add: o_def sum_list_negated)
  next
    case (Suc q')
    with Suc.prems have "q' < n" by simp
    then have "sum_list (map (z_sign (Z_on q')) (basis n)) = 0" by (rule Suc.IH)
    with Suc show ?thesis by (simp add: o_def z_sign_fun)
  qed
qed

lemma z_sign_pair_sum:
  "a < n \<Longrightarrow> b < n \<Longrightarrow> a \<noteq> b \<Longrightarrow>
   sum_list (map (z_sign (Mul (Z_on a) (Z_on b))) (basis n)) = 0"
proof (induction n arbitrary: a b)
  case 0
  then show ?case by simp
next
  case (Suc n)
  show ?case
  proof (cases a)
    case a0: 0
    with Suc.prems obtain b' where b: "b = Suc b'" by (cases b) auto
    show ?thesis by (simp add: a0 b o_def sum_list_negated)
  next
    case a: (Suc a')
    show ?thesis
    proof (cases b)
      case 0
      then show ?thesis by (simp add: a o_def sum_list_negated)
    next
      case b: (Suc b')
      from Suc.prems a b have "a' < n" "b' < n" "a' \<noteq> b'" by simp_all
      then have "sum_list (map (z_sign (Mul (Z_on a') (Z_on b'))) (basis n)) = 0"
        by (rule Suc.IH)
      then show ?thesis by (simp add: a b o_def z_sign_fun)
    qed
  qed
qed

lemma hadamard_z_single:
  "q < n \<Longrightarrow> z_expectation n (Z_on q) (hadamard_state n) = 0"
  by (simp only: hadamard_state_uniform z_expectation_uniform z_sign_single_sum mult_zero_right)

lemma hadamard_z_pair:
  assumes "a < n" and "b < n" and "a \<noteq> b"
  shows "z_expectation n (Mul (Z_on a) (Z_on b)) (hadamard_state n) = 0"
proof -
  have "sum_list (map (z_sign (Mul (Z_on a) (Z_on b))) (basis n)) = 0"
    using assms by (rule z_sign_pair_sum)
  then show ?thesis
    by (simp only: hadamard_state_uniform z_expectation_uniform mult_zero_right)
qed

lemma build_circuit_depth_zero:
  "self_p self = Some 0 \<Longrightarrow> self_pargs self = Some pargs \<Longrightarrow>
   build_circuit self g = Inr (hadamards (length (nodes g)))"
  by (simp add: build_circuit_def)

lemma depth_zero_term:
  assumes "self_p self = Some 0" and "self_pargs self = Some pargs"
    and sim: "\<And>n. F (hadamards n) = Inr (hadamard_state n)"
    and ev: "\<And>n ob. E ob (hadamard_state n) (qubit_map n) =
               Inr (z_expectation n ob (hadamard_state n))"
    and nonempty: "nodes g \<noteq> []"
    and el: "case el of
               Node a \<Rightarrow> getitem (self_nodes_weight self) a = Inr w
             | Edge a b \<Rightarrow> getitem (self_edges_weight self) (a, b) = Inr w \<and>
                 node_to_qubit (nodes g) a \<noteq> node_to_qubit (nodes g) b"
  shows "get_expectation F E self (el, g) = Inr 0"
proof -
  let ?n = "length (nodes g)"
  have circ: "build_circuit self g = Inr (hadamards ?n)"
    using assms(1,2) by (rule build_circuit_depth_zero)
  have less: "\<And>x. node_to_qubit (nodes g) x < ?n"
    using nonempty by (rule node_to_qubit_less)
  show ?thesis
  proof (cases el)
    case (Node a)
    with el have w: "getitem (self_nodes_weight self) a = Inr w" by simp
    have "weight_and_op self (nodes g) (Node a) = Inr (w, Z_on (node_to_qubit (nodes g) a))"
      using nonempty w by (simp add: qubit_at_local_index)
    then show ?thesis
      using Node by (simp add: get_expectation_def circ sim ev hadamard_z_single less)
  next
    case (Edge a b)
    with el have w: "getitem (self_edges_weight self) (a, b) = Inr w"
      and ne: "node_to_qubit (nodes g) a \<noteq> node_to_qubit (nodes g) b" by simp_all
    have "weight_and_op self (nodes g) (Edge a b) =
        Inr (w, Mul (Z_on (node_to_qubit (nodes g) a)) (Z_on (node_to_qubit (nodes g) b)))"
      using nonempty w by (simp add: qubit_at_local_index)
    then show ?thesis
      using Edge by (simp add: get_expectation_def circ sim ev hadamard_z_pair less ne)
  qed
qed

lemma serial_loop_zero:
  "(\<And>x. x \<in> set xs \<Longrightarrow> f x = Inr 0) \<Longrightarrow> serial_loop f acc xs = Inr acc"
  by (induction xs arbitrary: acc) simp_all

text \<open>
  Claim C5. At depth \<open>0\<close> the circuit of every subgraph is the Hadamard gates alone.
  When the simulator returns the exact state of that circuit (the uniform superposition)
  and the evaluator the exact expectation on it, every term of the mapping whose
  subgraph has a node and whose element has a weight contributes \<open>0\<close>, an edge term
  provided its two endpoints have distinct local qubits, and the total of either
  strategy is \<open>0\<close>.
\<close>

theorem depth_zero_total:
  assumes "self_p self = Some 0" and "self_pargs self = Some pargs"
    and "\<And>n. F (hadamards n) = Inr (hadamard_state n)"
    and "\<And>n ob. E ob (hadamard_state n) (qubit_map n) =
               Inr (z_expectation n ob (hadamard_state n))"
    and "self_element_to_graph self = Some items"
    and "\<And>el g. (el, g) \<in> set items \<Longrightarrow>
           nodes g \<noteq> [] \<and>
           (case el of
              Node a \<Rightarrow> (\<exists>w. getitem (self_nodes_weight self) a = Inr w)
            | Edge a b \<Rightarrow> (\<exists>w. getitem (self_edges_weight self) (a, b) = Inr w) \<and>
                node_to_qubit (nodes g) a \<noteq> node_to_qubit (nodes g) b)"
  shows "(\<forall>g. build_circuit self g = Inr (hadamards (length (nodes g))))
    \<and> (\<forall>item \<in> set items. get_expectation F E self item = Inr 0)
    \<and> fst (expectation_calculation_serial F E self proc) = Inr 0
    \<and> fst (expectation_calculation_parallel F E self proc) = Inr 0
    \<and> fst (expectation_calculation F E self proc) = Inr 0"
proof -
  have circ: "\<forall>g. build_circuit self g = Inr (hadamards (length (nodes g)))"
    using assms(1,2) by (simp add: build_circuit_depth_zero)
  have each: "get_expectation F E self item = Inr 0" if "item \<in> set items" for item
  proof -
    obtain el g where item: "item = (el, g)" by (cases item)
    with that assms(6) have ok: "nodes g \<noteq> []"
      "case el of
         Node a \<Rightarrow> (\<exists>w. getitem (self_nodes_weight self) a = Inr w)
       | Edge a b \<Rightarrow> (\<exists>w. getitem (self_edges_weight self) (a, b) = Inr w) \<and>
           node_to_qubit (nodes g) a \<noteq> node_to_qubit (nodes g) b"
      by blast+
    then obtain w where
      "case el of
         Node a \<Rightarrow> getitem (self_nodes_weight self) a = Inr w
       | Edge a b \<Rightarrow> getitem (self_edges_weight self) (a, b) = Inr w \<and>
           node_to_qubit (nodes g) a \<noteq> node_to_qubit (nodes g) b"
      by (cases el) auto
    with assms(1-4) ok(1) show ?thesis
      unfolding item by (rule depth_zero_term)
  qed
  then have "serial_loop (get_expectation F E self) 0 items = Inr 0"
    by (rule serial_loop_zero)
  with assms(5) have ser: "fst (expectation_calculation_serial F E self proc) = Inr 0"
    by (simp add: expectation_calculation_serial_def Let_def)
  then have "fst (expectation_calculation_parallel F E self proc) = Inr 0"
    and "fst (expectation_calculation F E self proc) = Inr 0"
    by (simp_all add: entry_eq_serial [where proc = proc and proc' = proc]
        flip: serial_eq_parallel(1) [where proc = proc and proc' = proc])
  with circ each ser show ?thesis by blast
qed

theorem depth_zero_total_witness:
  "get_expectation
     (\<lambda>circ. Inr (hadamard_state (length circ)))
     (\<lambda>ob state qm. Inr (z_expectation (length qm) ob state))
     \<lparr>self_p = Some 0, self_nodes_weight = Some [1 \<mapsto> 2, 2 \<mapsto> 3],
      self_edges_weight = Some [(1, 2) \<mapsto> 5], self_is_parallel = False,
      self_element_to_graph = Some [(Node 1, \<lparr>nodes = [1, 2], edges = [(1, 2)]\<rparr>),
                                    (Edge 1 2, \<lparr>nodes = [1, 2], edges = [(1, 2)]\<rparr>)],
      self_pargs = Some [], self_expectation_path = []\<rparr>
     (Edge 1 2, \<lparr>nodes = [1, 2], edges = [(1, 2)]\<rparr>) = Inr 0
   \<and> fst (expectation_calculation
     (\<lambda>circ. Inr (hadamard_state (length circ)))
     (\<lambda>ob state qm. Inr (z_expectation (length qm) ob state))
     \<lparr>self_p = Some 0, self_nodes_weight = Some [1 \<mapsto> 2, 2 \<mapsto> 3],
      self_edges_weight = Some [(1, 2) \<mapsto> 5], self_is_parallel = False,
      self_element_to_graph = Some [(Node 1, \<lparr>nodes = [1, 2], edges = [(1, 2)]\<rparr>),
                                    (Edge 1 2, \<lparr>nodes = [1, 2], edges = [(1, 2)]\<rparr>)],
      self_pargs = Some [], self_expectation_path = []\<rparr>
     \<lparr>cpu_count = 4, os_environ = Map.empty, pool_events = []\<rparr>) = Inr 0"
proof -
  let ?g = "\<lparr>nodes = [1, 2], edges = [(1, 2)]\<rparr>"
  let ?items = "[(Node 1, ?g), (Edge 1 2, ?g)]"
  let ?self = "\<lparr>self_p = Some 0, self_nodes_weight = Some [1 \<mapsto> 2, 2 \<mapsto> 3],
      self_edges_weight = Some [(1, 2) \<mapsto> 5], self_is_parallel = False,
      self_element_to_graph = Some ?items, self_pargs = Some [], self_expectation_path = []\<rparr>"
  let ?F = "\<lambda>circ :: entry list. Inr (hadamard_state (length circ)) :: error + complex list"
  let ?E = "\<lambda>(ob :: pauli) (state :: complex list) (qm :: (nat \<times> nat) list).
              Inr (z_expectation (length qm) ob state) :: error + complex"
  have n2q: "node_to_qubit [1, 2] 1 = 0" "node_to_qubit [1, 2] 2 = 1"
    by (simp_all add: node_to_qubit_def node_to_qubit_of_def store_index_def upt_rec)
  have h1: "self_p ?self = Some 0" and h2: "self_pargs ?self = Some []"
    and h5: "self_element_to_graph ?self = Some ?items"
    by simp_all
  have h3: "\<And>n. ?F (hadamards n) = Inr (hadamard_state n)"
    by (simp add: hadamards_def)
  have h4: "\<And>n ob. ?E ob (hadamard_state n) (qubit_map n) =
               Inr (z_expectation n ob (hadamard_state n))"
    by (simp add: qubit_map_def)
  have h6: "\<And>el g. (el, g) \<in> set ?items \<Longrightarrow>
           nodes g \<noteq> [] \<and>
           (case el of
              Node a \<Rightarrow> (\<exists>w. getitem (self_nodes_weight ?self) a = Inr w)
            | Edge a b \<Rightarrow> (\<exists>w. getitem (self_edges_weight ?self) (a, b) = Inr w) \<and>
                node_to_qubit (nodes g) a \<noteq> node_to_qubit (nodes g) b)"
    by (auto simp: n2q)
  from depth_zero_total [where self = ?self and pargs = "[]" and F = ?F and E = ?E
      and items = ?items
      and proc = "\<lparr>cpu_count = 4, os_environ = Map.empty, pool_events = []\<rparr>",
      OF h1 h2 h3 h4 h5 h6]
  show ?thesis by simp
qed

end
